theory Spec2Isabelle
  imports Complex_Main "HOL-Library.Word"
begin

section \<open>Numbers and time\<close>

text \<open>
  A finite \<^verbatim>\<open>double\<close> is read as the real number it denotes; rounding is not part of
  the model. The one thing a C++ floating-point expression can do that a real
  expression cannot is to divide by zero: the result is then an infinity or a NaN, and
  it stays non-finite through every later addition and multiplication with finite
  operands. A \<open>double\<close> is therefore a \<open>real option\<close>, \<open>None\<close> being "not finite".
  The divisors of this program are integers converted to \<^verbatim>\<open>double\<close>, hence finite.
\<close>

type_synonym double = "real option"

definition d_add :: "double \<Rightarrow> double \<Rightarrow> double" where
  "d_add a b =
     (case a of None \<Rightarrow> None
      | Some x \<Rightarrow> (case b of None \<Rightarrow> None | Some y \<Rightarrow> Some (x + y)))"

definition d_mul :: "double \<Rightarrow> double \<Rightarrow> double" where
  "d_mul a b =
     (case a of None \<Rightarrow> None
      | Some x \<Rightarrow> (case b of None \<Rightarrow> None | Some y \<Rightarrow> Some (x * y)))"

definition d_div :: "double \<Rightarrow> double \<Rightarrow> double" where
  "d_div a b =
     (case a of None \<Rightarrow> None
      | Some x \<Rightarrow>
          (case b of None \<Rightarrow> None
           | Some y \<Rightarrow> if y = 0 then None else Some (x / y)))"

definition d_neg :: "double \<Rightarrow> double" where
  "d_neg a = (case a of None \<Rightarrow> None | Some x \<Rightarrow> Some (- x))"

text \<open>
  \<^verbatim>\<open>ns3::Time\<close> is a signed count of nanoseconds. \<^verbatim>\<open>MilliSeconds\<close> takes an
  unsigned integer, so the \<^verbatim>\<open>double\<close> arguments \<^verbatim>\<open>busySlots * 0.5\<close> and
  \<^verbatim>\<open>backoffSlots * 0.5\<close> of this program are converted to whole milliseconds first,
  dropping the fraction. \<^verbatim>\<open>GetSeconds\<close> reads a time as a \<^verbatim>\<open>double\<close> number of
  seconds.
\<close>

type_synonym Time = int

definition MilliSeconds :: "real \<Rightarrow> Time" where
  "MilliSeconds x = \<lfloor>x\<rfloor> * 1000000"

definition GetSeconds :: "Time \<Rightarrow> real" where
  "GetSeconds t = real_of_int t / 1000000000"

section \<open>NrUeLbt: listen before talk, per bandwidth part\<close>

record BwpLbtState =
  bwpId :: "16 word"
  currentCw :: "16 word"
  wifiPoissonMean :: real
  wifiOccupancy :: double
  lbtFailureRate :: double
  totalAttempts :: "32 word"
  totalFailures :: "32 word"
  channelBusyUntil :: Time
  channelOccupiedUntil :: Time
  lastUpdateTime :: Time

record NrUeLbt =
  m_bwpStates :: "16 word \<rightharpoonup> BwpLbtState"
  m_cwMin :: "16 word"
  m_cwMax :: "16 word"
  m_iccaDuration :: "16 word"
  m_mcotDuration :: "16 word"

text \<open>
  \<^verbatim>\<open>m_bwpStates[bwpId]\<close> on a \<^verbatim>\<open>std::map\<close> inserts a value-initialised element when
  the key is absent: every number is zero and every \<^verbatim>\<open>Time\<close> is zero.
\<close>

definition BwpLbtState_zero :: BwpLbtState where
  "BwpLbtState_zero =
     \<lparr>bwpId = 0, currentCw = 0, wifiPoissonMean = 0, wifiOccupancy = Some 0,
      lbtFailureRate = Some 0, totalAttempts = 0, totalFailures = 0,
      channelBusyUntil = 0, channelOccupiedUntil = 0, lastUpdateTime = 0\<rparr>"

definition bwpStates_at :: "NrUeLbt \<Rightarrow> 16 word \<Rightarrow> BwpLbtState" where
  "bwpStates_at c i =
     (case m_bwpStates c i of None \<Rightarrow> BwpLbtState_zero | Some s \<Rightarrow> s)"

definition bwpStates_upd ::
  "NrUeLbt \<Rightarrow> 16 word \<Rightarrow> (BwpLbtState \<Rightarrow> BwpLbtState) \<Rightarrow> NrUeLbt" where
  "bwpStates_upd c i f = c\<lparr>m_bwpStates := (m_bwpStates c)(i \<mapsto> f (bwpStates_at c i))\<rparr>"

text \<open>The constructor followed by the attribute defaults of \<^verbatim>\<open>GetTypeId\<close>.\<close>

definition NrUeLbt_default :: NrUeLbt where
  "NrUeLbt_default =
     \<lparr>m_bwpStates = Map.empty, m_cwMin = 8, m_cwMax = 128, m_iccaDuration = 1,
      m_mcotDuration = 5\<rparr>"

text \<open>
  \<^verbatim>\<open>ScheduleWifiInterference\<close> hands the next arrival to the simulator's event queue,
  which is not part of this state; what it does to the controller is the
  \<^verbatim>\<open>m_bwpStates[bwpId]\<close> it evaluates.
\<close>

definition ScheduleWifiInterference :: "NrUeLbt \<Rightarrow> 16 word \<Rightarrow> NrUeLbt" where
  "ScheduleWifiInterference c i = bwpStates_upd c i (\<lambda>s. s)"

definition AddBwp :: "NrUeLbt \<Rightarrow> 16 word \<Rightarrow> real \<Rightarrow> Time \<Rightarrow> NrUeLbt" where
  "AddBwp c i mean now =
     ScheduleWifiInterference
       (c\<lparr>m_bwpStates := (m_bwpStates c)(i \<mapsto>
            \<lparr>bwpId = i, currentCw = m_cwMin c, wifiPoissonMean = mean,
             wifiOccupancy = Some 0, lbtFailureRate = Some 0, totalAttempts = 0,
             totalFailures = 0, channelBusyUntil = 0, channelOccupiedUntil = 0,
             lastUpdateTime = now\<rparr>)\<rparr>) i"

text \<open>
  \<^verbatim>\<open>HandleWifiInterference\<close> at time \<open>now\<close>; \<open>rnd\<close> is what \<^verbatim>\<open>rand ()\<close> returned.
\<close>

definition HandleWifiInterference :: "NrUeLbt \<Rightarrow> 16 word \<Rightarrow> Time \<Rightarrow> nat \<Rightarrow> NrUeLbt" where
  "HandleWifiInterference c i now rnd =
     (let busySlots = (of_nat (1 + rnd mod 5) :: 16 word);
          busy = real (unat busySlots) * 0.5
      in ScheduleWifiInterference
           (bwpStates_upd c i (\<lambda>s.
              s\<lparr>channelBusyUntil := now + MilliSeconds busy,
                wifiOccupancy :=
                  d_add (d_mul (wifiOccupancy s) (Some 0.9))
                        (d_mul (Some 0.1)
                           (d_div (Some busy) (Some (GetSeconds (now - lastUpdateTime s))))),
                lastUpdateTime := now\<rparr>)) i)"

definition UpdateFailureRate :: "NrUeLbt \<Rightarrow> 16 word \<Rightarrow> NrUeLbt" where
  "UpdateFailureRate c i =
     bwpStates_upd c i (\<lambda>s.
       let currentRate =
             d_div (Some (real (unat (totalFailures s)))) (Some (real (unat (totalAttempts s))))
       in s\<lparr>lbtFailureRate :=
              d_add (d_mul (Some 0.9) (lbtFailureRate s)) (d_mul (Some 0.1) currentRate)\<rparr>)"

text \<open>
  The random draw of the backoff. \<^verbatim>\<open>UniformRandomVariable::GetInteger\<close> takes and
  returns \<^verbatim>\<open>uint32_t\<close>. Its upper argument \<^verbatim>\<open>state.currentCw - 1\<close> is computed in
  \<^verbatim>\<open>int\<close> and converted; the value returned is stored in the \<^verbatim>\<open>uint16_t\<close>
  \<^verbatim>\<open>backoffSlots\<close>.
\<close>

definition ecca_upper :: "16 word \<Rightarrow> 32 word" where
  "ecca_upper cw = word_of_int (uint cw - 1)"

definition GetInteger_ok :: "32 word \<Rightarrow> 32 word \<Rightarrow> 32 word \<Rightarrow> bool" where
  "GetInteger_ok lo hi r \<longleftrightarrow> lo \<le> r \<and> r \<le> hi"

definition backoffSlots_of :: "32 word \<Rightarrow> 16 word" where
  "backoffSlots_of r = ucast r"

text \<open>
  \<^verbatim>\<open>ChannelAccessRequest\<close> at time \<open>now\<close>, where \<open>r\<close> is the value \<^verbatim>\<open>GetInteger\<close>
  returns if the backoff is drawn. The doubling \<^verbatim>\<open>2 * state.currentCw\<close> is an
  \<^verbatim>\<open>int\<close>; the smaller of it and \<^verbatim>\<open>m_cwMax\<close> is stored.
\<close>

definition ChannelAccessRequest ::
  "NrUeLbt \<Rightarrow> 16 word \<Rightarrow> Time \<Rightarrow> 32 word \<Rightarrow> bool \<times> NrUeLbt" where
  "ChannelAccessRequest c i now r =
     (let c1 = bwpStates_upd c i (\<lambda>s. s\<lparr>totalAttempts := totalAttempts s + 1\<rparr>);
          state = bwpStates_at c1 i
      in if now < channelBusyUntil state then
           (False,
            UpdateFailureRate
              (bwpStates_upd c1 i (\<lambda>s. s\<lparr>totalFailures := totalFailures s + 1\<rparr>)) i)
         else
           let backoffSlots = backoffSlots_of r;
               backoffTime = MilliSeconds (real (unat backoffSlots) * 0.5);
               endTime = now + backoffTime
           in if endTime > channelBusyUntil state then
                (False,
                 bwpStates_upd
                   (UpdateFailureRate
                      (bwpStates_upd c1 i (\<lambda>s. s\<lparr>totalFailures := totalFailures s + 1\<rparr>)) i)
                   i (\<lambda>s. s\<lparr>currentCw :=
                                word_of_int (min (2 * uint (currentCw s)) (uint (m_cwMax c)))\<rparr>))
              else
                (True,
                 bwpStates_upd c1 i (\<lambda>s.
                   s\<lparr>currentCw := m_cwMin c,
                     channelOccupiedUntil :=
                       now + MilliSeconds (real (unat (m_mcotDuration c)))\<rparr>)))"

text \<open>
  In the source the draw is made inside \<^verbatim>\<open>ChannelAccessRequest\<close>, by
  \<^verbatim>\<open>m_uniformRandom->GetInteger (0, state.currentCw - 1)\<close>, once the immediate check has
  passed. The definition above takes the value drawn; the following one takes the random
  variable, as the function that answers \<^verbatim>\<open>GetInteger (min, max)\<close>, so that the bounds
  it is asked with are part of the model. \<open>draw_largest\<close> is the random variable that
  answers the largest value it may.
\<close>

definition ChannelAccessRequest_rng ::
  "NrUeLbt \<Rightarrow> 16 word \<Rightarrow> Time \<Rightarrow> (32 word \<Rightarrow> 32 word \<Rightarrow> 32 word) \<Rightarrow> bool \<times> NrUeLbt" where
  "ChannelAccessRequest_rng c i now rng =
     ChannelAccessRequest c i now (rng 0 (ecca_upper (currentCw (bwpStates_at c i))))"

definition draw_largest :: "32 word \<Rightarrow> 32 word \<Rightarrow> 32 word" where
  "draw_largest lo hi = hi"

definition GetFailureRate :: "NrUeLbt \<Rightarrow> 16 word \<Rightarrow> double" where
  "GetFailureRate c i =
     (case m_bwpStates c i of Some s \<Rightarrow> lbtFailureRate s | None \<Rightarrow> Some 0)"

definition GetWifiOccupancy :: "NrUeLbt \<Rightarrow> 16 word \<Rightarrow> double" where
  "GetWifiOccupancy c i =
     (case m_bwpStates c i of Some s \<Rightarrow> wifiOccupancy s | None \<Rightarrow> Some 0)"

definition GetContentionWindow :: "NrUeLbt \<Rightarrow> 16 word \<Rightarrow> 16 word" where
  "GetContentionWindow c i =
     (case m_bwpStates c i of Some s \<Rightarrow> currentCw s | None \<Rightarrow> m_cwMin c)"

definition SetWifiInterference :: "NrUeLbt \<Rightarrow> 16 word \<Rightarrow> real \<Rightarrow> NrUeLbt" where
  "SetWifiInterference c i mean =
     (case m_bwpStates c i of
        Some s \<Rightarrow> c\<lparr>m_bwpStates := (m_bwpStates c)(i \<mapsto> s\<lparr>wifiPoissonMean := mean\<rparr>)\<rparr>
      | None \<Rightarrow> c)"

text \<open>
  The calls that reach a controller, in the order the simulator dispatches them.
\<close>

datatype LbtEvent =
    EvAddBwp "16 word" real Time
  | EvAccess "16 word" Time "32 word"
  | EvWifi "16 word" Time nat
  | EvSetWifi "16 word" real

fun lbt_step :: "NrUeLbt \<Rightarrow> LbtEvent \<Rightarrow> NrUeLbt" where
  "lbt_step c (EvAddBwp i mean now) = AddBwp c i mean now"
| "lbt_step c (EvAccess i now r) = snd (ChannelAccessRequest c i now r)"
| "lbt_step c (EvWifi i now rnd) = HandleWifiInterference c i now rnd"
| "lbt_step c (EvSetWifi i mean) = SetWifiInterference c i mean"

fun lbt_run :: "NrUeLbt \<Rightarrow> LbtEvent list \<Rightarrow> NrUeLbt" where
  "lbt_run c [] = c"
| "lbt_run c (e # es) = lbt_run (lbt_step c e) es"

text \<open>
  A sub-band id is named by a registration, by an access request or by an interference
  arrival (which is scheduled for registered sub-bands only); a sequence of calls leaves
  an id alone when none of these names it. A change of the interference rate of an
  unknown id is allowed.
\<close>

fun names_bwp :: "LbtEvent \<Rightarrow> 16 word \<Rightarrow> bool" where
  "names_bwp (EvAddBwp j mean now) i = (j = i)"
| "names_bwp (EvAccess j now r) i = (j = i)"
| "names_bwp (EvWifi j now rnd) i = (j = i)"
| "names_bwp (EvSetWifi j mean) i = False"

fun leaves_alone :: "LbtEvent list \<Rightarrow> 16 word \<Rightarrow> bool" where
  "leaves_alone [] i = True"
| "leaves_alone (e # es) i = (\<not> names_bwp e i \<and> leaves_alone es i)"

text \<open>
  The contention window of a sub-band is within the configured bounds.
\<close>

definition cw_ok :: "NrUeLbt \<Rightarrow> 16 word \<Rightarrow> bool" where
  "cw_ok c i \<longleftrightarrow> (\<exists>s. m_bwpStates c i = Some s \<and> m_cwMin c \<le> currentCw s \<and> currentCw s \<le> m_cwMax c)"

section \<open>NrUeBwpManager: the assignment registry\<close>

text \<open>
  \<^verbatim>\<open>m_bwpMap\<close> takes a BWP id to its \<^verbatim>\<open>BwpInfo\<close>, \<^verbatim>\<open>m_ueMap\<close> a UE id to the BWP it is
  on. Ids and the active-UE counter are \<^verbatim>\<open>uint16_t\<close>. The switch latency only delays
  the (empty) \<^verbatim>\<open>NotifyPhyLayer\<close> callback in the simulator's queue and is left out.
\<close>

record BwpInfo =
  bi_bwpId :: "16 word"
  numRbs :: "16 word"
  activeUes :: "16 word"

record NrUeBwpManager =
  m_bwpMap :: "16 word \<rightharpoonup> BwpInfo"
  m_ueMap :: "16 word \<rightharpoonup> 16 word"
  m_defaultBwpId :: "16 word"

text \<open>\<^verbatim>\<open>m_bwpMap[id]\<close> on an absent id inserts a \<^verbatim>\<open>BwpInfo\<close> of zeros.\<close>

definition BwpInfo_zero :: BwpInfo where
  "BwpInfo_zero = \<lparr>bi_bwpId = 0, numRbs = 0, activeUes = 0\<rparr>"

definition bwpMap_at :: "NrUeBwpManager \<Rightarrow> 16 word \<Rightarrow> BwpInfo" where
  "bwpMap_at m b = (case m_bwpMap m b of None \<Rightarrow> BwpInfo_zero | Some x \<Rightarrow> x)"

definition bwpMap_upd ::
  "NrUeBwpManager \<Rightarrow> 16 word \<Rightarrow> (BwpInfo \<Rightarrow> BwpInfo) \<Rightarrow> NrUeBwpManager" where
  "bwpMap_upd m b f = m\<lparr>m_bwpMap := (m_bwpMap m)(b \<mapsto> f (bwpMap_at m b))\<rparr>"

definition NrUeBwpManager_default :: NrUeBwpManager where
  "NrUeBwpManager_default = \<lparr>m_bwpMap = Map.empty, m_ueMap = Map.empty, m_defaultBwpId = 0\<rparr>"

text \<open>\<^verbatim>\<open>NrUeBwpManager::AddBwp\<close>; the name \<open>AddBwp\<close> is the controller's above.\<close>

definition BwpManager_AddBwp :: "NrUeBwpManager \<Rightarrow> 16 word \<Rightarrow> 16 word \<Rightarrow> NrUeBwpManager" where
  "BwpManager_AddBwp m b n =
     m\<lparr>m_bwpMap := (m_bwpMap m)(b \<mapsto> \<lparr>bi_bwpId = b, numRbs = n, activeUes = 0\<rparr>)\<rparr>"

definition GetNumRbs :: "NrUeBwpManager \<Rightarrow> 16 word \<Rightarrow> 16 word" where
  "GetNumRbs m b = (case m_bwpMap m b of Some x \<Rightarrow> numRbs x | None \<Rightarrow> 0)"

definition GetActiveUes :: "NrUeBwpManager \<Rightarrow> 16 word \<Rightarrow> 16 word" where
  "GetActiveUes m b = (case m_bwpMap m b of Some x \<Rightarrow> activeUes x | None \<Rightarrow> 0)"

definition AddUe :: "NrUeBwpManager \<Rightarrow> 16 word \<Rightarrow> NrUeBwpManager" where
  "AddUe m ue =
     (if m_ueMap m ue = None then
        bwpMap_upd (m\<lparr>m_ueMap := (m_ueMap m)(ue \<mapsto> m_defaultBwpId m)\<rparr>)
          (m_defaultBwpId m) (\<lambda>x. x\<lparr>activeUes := activeUes x + 1\<rparr>)
      else m)"

definition RemoveUe :: "NrUeBwpManager \<Rightarrow> 16 word \<Rightarrow> NrUeBwpManager" where
  "RemoveUe m ue =
     (case m_ueMap m ue of
        None \<Rightarrow> m
      | Some b \<Rightarrow>
          (bwpMap_upd m b (\<lambda>x. x\<lparr>activeUes := activeUes x - 1\<rparr>))
            \<lparr>m_ueMap := (m_ueMap m)(ue := None)\<rparr>)"

definition SwitchBwp :: "NrUeBwpManager \<Rightarrow> 16 word \<Rightarrow> 16 word \<Rightarrow> NrUeBwpManager" where
  "SwitchBwp m ue newBwpId =
     (case m_ueMap m ue of
        None \<Rightarrow> m
      | Some oldBwpId \<Rightarrow>
          if m_bwpMap m newBwpId = None then m
          else if oldBwpId \<noteq> newBwpId then
            (bwpMap_upd
               (bwpMap_upd m oldBwpId (\<lambda>x. x\<lparr>activeUes := activeUes x - 1\<rparr>))
               newBwpId (\<lambda>x. x\<lparr>activeUes := activeUes x + 1\<rparr>))
              \<lparr>m_ueMap := (m_ueMap m)(ue \<mapsto> newBwpId)\<rparr>
          else m)"

definition GetUeBwp :: "NrUeBwpManager \<Rightarrow> 16 word \<Rightarrow> 16 word" where
  "GetUeBwp m ue = (case m_ueMap m ue of Some b \<Rightarrow> b | None \<Rightarrow> m_defaultBwpId m)"

text \<open>Sequences of registry calls.\<close>

datatype RegistryOp = OpAddUe "16 word" | OpRemoveUe "16 word" | OpSwitchBwp "16 word" "16 word"

fun reg_step :: "NrUeBwpManager \<Rightarrow> RegistryOp \<Rightarrow> NrUeBwpManager" where
  "reg_step m (OpAddUe ue) = AddUe m ue"
| "reg_step m (OpRemoveUe ue) = RemoveUe m ue"
| "reg_step m (OpSwitchBwp ue b) = SwitchBwp m ue b"

fun reg_run :: "NrUeBwpManager \<Rightarrow> RegistryOp list \<Rightarrow> NrUeBwpManager" where
  "reg_run m [] = m"
| "reg_run m (p # ps) = reg_run (reg_step m p) ps"

text \<open>
  The quantities of the conservation property: the terminals recorded on a BWP, the sum
  of the counters that \<^verbatim>\<open>GetActiveUes\<close> reports over the registered BWPs, and the
  number of registered terminals. A registry is consistent when every terminal is on a
  registered BWP and every counter is the number of terminals on its BWP, as a
  \<^verbatim>\<open>uint16_t\<close>.
\<close>

definition ues_on :: "NrUeBwpManager \<Rightarrow> 16 word \<Rightarrow> 16 word set" where
  "ues_on m b = {ue. m_ueMap m ue = Some b}"

definition sum_active :: "NrUeBwpManager \<Rightarrow> nat" where
  "sum_active m = (\<Sum>b \<in> dom (m_bwpMap m). unat (GetActiveUes m b))"

definition num_ues :: "NrUeBwpManager \<Rightarrow> nat" where
  "num_ues m = card (dom (m_ueMap m))"

definition registry_inv :: "NrUeBwpManager \<Rightarrow> bool" where
  "registry_inv m \<longleftrightarrow>
     (\<forall>ue b. m_ueMap m ue = Some b \<longrightarrow> m_bwpMap m b \<noteq> None) \<and>
     (\<forall>b x. m_bwpMap m b = Some x \<longrightarrow> activeUes x = of_nat (card (ues_on m b)))"

text \<open>Registries and call sequences used as concrete inputs below.\<close>

definition add_ue_ops :: "nat \<Rightarrow> RegistryOp list" where
  "add_ue_ops n = map (OpAddUe \<circ> of_nat) [0..<n]"

definition registry_one_bwp :: NrUeBwpManager where
  "registry_one_bwp = BwpManager_AddBwp NrUeBwpManager_default 0 10"

definition registry_two_bwps :: NrUeBwpManager where
  "registry_two_bwps = AddUe (BwpManager_AddBwp (BwpManager_AddBwp NrUeBwpManager_default 0 10) 1 10) 5"

section \<open>NrUeAiScheduler: the decision window\<close>

text \<open>
  The statistics the scheduler holds are finite doubles. \<^verbatim>\<open>BwpStats\<close> shares field
  names with the controller's state, so its fields carry the prefix \<open>bs_\<close>.
\<close>

datatype AlgorithmType = LCA | RLA

record BwpStats =
  bs_bwpId :: "16 word"
  bs_lbtFailureRate :: real
  bs_wifiOccupancy :: real
  bs_contentionWindow :: real
  bs_avgBitsPerRb :: real
  bs_totalThroughput :: real
  bs_totalCollisions :: "32 word"

record UeStats =
  ueId :: "16 word"
  currentBwp :: "16 word"
  queueSize :: "32 word"
  holDelay :: real
  throughput :: real
  us_avgBitsPerRb :: real

record NrUeAiScheduler =
  m_currentTimeSlot :: "32 word"
  m_currentWindow :: "32 word"
  m_algorithmType :: AlgorithmType
  m_timeWindowSize :: "32 word"
  m_maxScheduledUes :: "32 word"
  m_epsilon :: real
  m_epsilonMin :: real
  m_epsilonDecay :: real
  m_bwpStats :: "BwpStats list"
  m_ueStats :: "UeStats list"

text \<open>
  \<^verbatim>\<open>AssignBwpsLca\<close>. The first loop looks for the largest metric, starting from
  \<^verbatim>\<open>bestBwp = 0\<close> and \<^verbatim>\<open>maxMetric = 0.0\<close> and replacing them only on a strictly
  larger metric.
\<close>

definition lca_metric :: "NrUeBwpManager \<Rightarrow> BwpStats \<Rightarrow> real" where
  "lca_metric mgr st =
     (1 - bs_lbtFailureRate st) * bs_avgBitsPerRb st * real (unat (GetNumRbs mgr (bs_bwpId st)))"

fun lca_best :: "NrUeBwpManager \<Rightarrow> BwpStats list \<Rightarrow> 16 word \<times> real \<Rightarrow> 16 word \<times> real" where
  "lca_best mgr [] (bestBwp, maxMetric) = (bestBwp, maxMetric)"
| "lca_best mgr (st # sts) (bestBwp, maxMetric) =
     (let metric = lca_metric mgr st
      in if metric > maxMetric then lca_best mgr sts (bs_bwpId st, metric)
         else lca_best mgr sts (bestBwp, maxMetric))"

fun switch_all :: "UeStats list \<Rightarrow> 16 word \<Rightarrow> NrUeBwpManager \<Rightarrow> NrUeBwpManager" where
  "switch_all [] b m = m"
| "switch_all (ue # ues) b m = switch_all ues b (SwitchBwp m (ueId ue) b)"

text \<open>
  The proportional branch rounds with \<^verbatim>\<open>std::round\<close> (halves away from zero) and stores
  the result in a \<^verbatim>\<open>uint16_t\<close>; the conversion is undefined for a value that is not
  finite or out of range, which is \<open>None\<close> here. The index \<^verbatim>\<open>ueIdx\<close> is a
  \<^verbatim>\<open>uint16_t\<close> that runs on across the BWPs.
\<close>

definition std_round :: "real \<Rightarrow> int" where
  "std_round x = (if 0 \<le> x then \<lfloor>x + 1 / 2\<rfloor> else \<lceil>x - 1 / 2\<rceil>)"

definition to_uint16 :: "int \<Rightarrow> 16 word option" where
  "to_uint16 k = (if 0 \<le> k \<and> k < 65536 then Some (word_of_int k) else None)"

fun lca_inner ::
  "nat \<Rightarrow> UeStats list \<Rightarrow> 16 word \<Rightarrow> 16 word \<Rightarrow> NrUeBwpManager \<Rightarrow> 16 word \<times> NrUeBwpManager" where
  "lca_inner 0 ues b ueIdx m = (ueIdx, m)"
| "lca_inner (Suc k) ues b ueIdx m =
     (if unat ueIdx < length ues
      then lca_inner k ues b (ueIdx + 1) (SwitchBwp m (ueId (ues ! unat ueIdx)) b)
      else (ueIdx, m))"

fun lca_distribute ::
  "(BwpStats \<times> 16 word) list \<Rightarrow> UeStats list \<Rightarrow> 16 word \<Rightarrow> NrUeBwpManager \<Rightarrow> NrUeBwpManager" where
  "lca_distribute [] ues ueIdx m = m"
| "lca_distribute ((st, cnt) # rest) ues ueIdx m =
     (case lca_inner (unat cnt) ues (bs_bwpId st) ueIdx m of
        (ueIdx', m') \<Rightarrow> lca_distribute rest ues ueIdx' m')"

definition AssignBwpsLca :: "NrUeAiScheduler \<Rightarrow> NrUeBwpManager \<Rightarrow> NrUeBwpManager option" where
  "AssignBwpsLca s mgr =
     (let bestBwp = fst (lca_best mgr (m_bwpStats s) (0, 0))
      in if length (m_ueStats s) \<le> unat (m_maxScheduledUes s)
         then Some (switch_all (m_ueStats s) bestBwp mgr)
         else
           let bwpMetrics = map (lca_metric mgr) (m_bwpStats s);
               totalMetric = sum_list bwpMetrics
           in if totalMetric = 0 then None
              else
                case those (map (\<lambda>x. to_uint16 (std_round
                                (real (length (m_ueStats s)) * (x / totalMetric)))) bwpMetrics) of
                  None \<Rightarrow> None
                | Some uesPerBwp \<Rightarrow>
                    Some (lca_distribute (zip (m_bwpStats s) uesPerBwp) (m_ueStats s) 0 mgr))"

text \<open>
  \<^verbatim>\<open>AssignBwpsRla\<close>. The learning environment is a collaborator behind a pointer that may
  be null; what the scheduler asks of it in one window is a sampled action, the best
  action for the current observation, and the assignments that executing an action
  returns. \<open>u\<close> is the value of \<^verbatim>\<open>rand () / (double)RAND_MAX\<close>. \<^verbatim>\<open>NS_FATAL_ERROR\<close> ends
  the run.
\<close>

datatype SchedError = FatalError

record RlEnvIface =
  Sample :: nat
  GetOptimalAction :: nat
  ExecuteAction :: "nat \<Rightarrow> 16 word list"

definition AssignBwpsRla ::
  "NrUeAiScheduler \<Rightarrow> RlEnvIface option \<Rightarrow> real \<Rightarrow> SchedError + NrUeAiScheduler \<times> 16 word list" where
  "AssignBwpsRla s rlEnv u =
     (case rlEnv of
        None \<Rightarrow> Inl FatalError
      | Some env \<Rightarrow>
          let action = (if u < m_epsilon s then Sample env else GetOptimalAction env);
              assignments = ExecuteAction env action
          in Inr (s\<lparr>m_epsilon := max (m_epsilon s * m_epsilonDecay s) (m_epsilonMin s)\<rparr>,
                  assignments))"

text \<open>The values of \<^verbatim>\<open>m_epsilon\<close> after each of a sequence of windows.\<close>

fun rla_epsilons :: "NrUeAiScheduler \<Rightarrow> (RlEnvIface \<times> real) list \<Rightarrow> real list" where
  "rla_epsilons s [] = []"
| "rla_epsilons s ((env, u) # ws) =
     (case AssignBwpsRla s (Some env) u of
        Inl e \<Rightarrow> []
      | Inr (s', assignments) \<Rightarrow> m_epsilon s' # rla_epsilons s' ws)"







definition rla_negative_sched :: NrUeAiScheduler where
  "rla_negative_sched =
     \<lparr>m_currentTimeSlot = 0, m_currentWindow = 0, m_algorithmType = RLA, m_timeWindowSize = 500,
      m_maxScheduledUes = 16, m_epsilon = - 1, m_epsilonMin = - 2, m_epsilonDecay = 1 / 2,
      m_bwpStats = [], m_ueStats = []\<rparr>"

definition rla_default_sched :: NrUeAiScheduler where
  "rla_default_sched =
     \<lparr>m_currentTimeSlot = 0, m_currentWindow = 0, m_algorithmType = RLA, m_timeWindowSize = 500,
      m_maxScheduledUes = 16, m_epsilon = 1, m_epsilonMin = 1 / 100, m_epsilonDecay = 995 / 1000,
      m_bwpStats = [], m_ueStats = []\<rparr>"

definition rl_env_fixed :: RlEnvIface where
  "rl_env_fixed = \<lparr>Sample = 1, GetOptimalAction = 0, ExecuteAction = (\<lambda>a. [])\<rparr>"

section \<open>GymBwpRlEnv: the reward\<close>

text \<open>
  \<^verbatim>\<open>GetReward\<close> sums the head-of-line delays and the throughputs of the terminals the
  scheduler reports, divides the first sum by their number and adds the reward to
  \<^verbatim>\<open>m_totalReward\<close>.
\<close>

record GymBwpRlEnv =
  m_alpha :: real
  m_beta :: real
  m_maxThroughput :: real
  m_totalReward :: double
  m_currentStep :: "32 word"
  m_episode :: "32 word"

fun reward_sums :: "UeStats list \<Rightarrow> real \<times> real \<Rightarrow> real \<times> real" where
  "reward_sums [] (avgHolDelay, totalThroughput) = (avgHolDelay, totalThroughput)"
| "reward_sums (ue # ues) (avgHolDelay, totalThroughput) =
     reward_sums ues (avgHolDelay + holDelay ue, totalThroughput + throughput ue)"

definition GetReward :: "GymBwpRlEnv \<Rightarrow> UeStats list \<Rightarrow> double \<times> GymBwpRlEnv" where
  "GetReward env ueStats =
     (case reward_sums ueStats (0, 0) of
        (sumHolDelay, totalThroughput) \<Rightarrow>
          let avgHolDelay = d_div (Some sumHolDelay) (Some (real (length ueStats)));
              reward = d_neg (d_add (d_mul (Some (m_alpha env)) avgHolDelay)
                               (Some (m_beta env * (m_maxThroughput env - totalThroughput))))
          in (reward, env\<lparr>m_totalReward := d_add (m_totalReward env) reward\<rparr>))"

section \<open>Properties of the controller\<close>

subsection \<open>What each call does to the state map and to the parameters\<close>

lemma bwpStates_upd_simps:
  "m_bwpStates (bwpStates_upd c i f) = (m_bwpStates c)(i \<mapsto> f (bwpStates_at c i))"
  "m_cwMin (bwpStates_upd c i f) = m_cwMin c"
  "m_cwMax (bwpStates_upd c i f) = m_cwMax c"
  "m_mcotDuration (bwpStates_upd c i f) = m_mcotDuration c"
  "m_iccaDuration (bwpStates_upd c i f) = m_iccaDuration c"
  by (simp_all add: bwpStates_upd_def)

lemma bwpStates_at_upd:
  "bwpStates_at (bwpStates_upd c i f) j = (if j = i then f (bwpStates_at c i) else bwpStates_at c j)"
  by (simp add: bwpStates_upd_def bwpStates_at_def)

lemma UpdateFailureRate_simps:
  "m_cwMin (UpdateFailureRate c i) = m_cwMin c"
  "m_cwMax (UpdateFailureRate c i) = m_cwMax c"
  "m_mcotDuration (UpdateFailureRate c i) = m_mcotDuration c"
  "m_iccaDuration (UpdateFailureRate c i) = m_iccaDuration c"
  by (simp_all add: UpdateFailureRate_def bwpStates_upd_simps)

lemma ChannelAccessRequest_params:
  "m_cwMin (snd (ChannelAccessRequest c i now r)) = m_cwMin c"
  "m_cwMax (snd (ChannelAccessRequest c i now r)) = m_cwMax c"
  "m_mcotDuration (snd (ChannelAccessRequest c i now r)) = m_mcotDuration c"
  "m_iccaDuration (snd (ChannelAccessRequest c i now r)) = m_iccaDuration c"
  by (simp_all add: ChannelAccessRequest_def Let_def bwpStates_upd_simps UpdateFailureRate_simps)

text \<open>
  The state an access request leaves for its sub-band, and when it is granted, in terms
  of the state it found.
\<close>

lemma ChannelAccessRequest_states:
  "m_bwpStates (snd (ChannelAccessRequest c i now r)) j =
     (if j = i then
        Some (let s0 = bwpStates_at c i; s = s0\<lparr>totalAttempts := totalAttempts s0 + 1\<rparr>;
                  sf = s\<lparr>totalFailures := totalFailures s + 1\<rparr>;
                  su = sf\<lparr>lbtFailureRate :=
                            d_add (d_mul (Some 0.9) (lbtFailureRate sf))
                              (d_mul (Some 0.1)
                                (d_div (Some (real (unat (totalFailures sf))))
                                       (Some (real (unat (totalAttempts sf))))))\<rparr>
              in if now < channelBusyUntil s then su
                 else if now + MilliSeconds (real (unat (backoffSlots_of r)) * 0.5) > channelBusyUntil s
                 then su\<lparr>currentCw := word_of_int (min (2 * uint (currentCw su)) (uint (m_cwMax c)))\<rparr>
                 else s\<lparr>currentCw := m_cwMin c,
                        channelOccupiedUntil := now + MilliSeconds (real (unat (m_mcotDuration c)))\<rparr>)
      else m_bwpStates c j)"
  by (simp add: ChannelAccessRequest_def Let_def bwpStates_upd_simps UpdateFailureRate_def bwpStates_at_upd)

lemma ChannelAccessRequest_fst:
  "fst (ChannelAccessRequest c i now r) \<longleftrightarrow>
     \<not> now < channelBusyUntil (bwpStates_at c i) \<and>
     \<not> now + MilliSeconds (real (unat (backoffSlots_of r)) * 0.5) > channelBusyUntil (bwpStates_at c i)"
  by (simp add: ChannelAccessRequest_def Let_def bwpStates_upd_simps UpdateFailureRate_def bwpStates_at_upd)

lemma AddBwp_simps:
  "m_bwpStates (AddBwp c i mean now) j =
     (if j = i then Some \<lparr>bwpId = i, currentCw = m_cwMin c, wifiPoissonMean = mean,
             wifiOccupancy = Some 0, lbtFailureRate = Some 0, totalAttempts = 0,
             totalFailures = 0, channelBusyUntil = 0, channelOccupiedUntil = 0,
             lastUpdateTime = now\<rparr> else m_bwpStates c j)"
  "m_cwMin (AddBwp c i mean now) = m_cwMin c"
  "m_cwMax (AddBwp c i mean now) = m_cwMax c"
  "m_mcotDuration (AddBwp c i mean now) = m_mcotDuration c"
  by (simp_all add: AddBwp_def ScheduleWifiInterference_def bwpStates_upd_def bwpStates_at_def)

lemma HandleWifiInterference_simps:
  "j \<noteq> i \<Longrightarrow> m_bwpStates (HandleWifiInterference c i now rnd) j = m_bwpStates c j"
  "currentCw (bwpStates_at (HandleWifiInterference c i now rnd) i) = currentCw (bwpStates_at c i)"
  "m_bwpStates (HandleWifiInterference c i now rnd) i \<noteq> None"
  "m_cwMin (HandleWifiInterference c i now rnd) = m_cwMin c"
  "m_cwMax (HandleWifiInterference c i now rnd) = m_cwMax c"
  "m_mcotDuration (HandleWifiInterference c i now rnd) = m_mcotDuration c"
  by (simp_all add: HandleWifiInterference_def ScheduleWifiInterference_def Let_def bwpStates_upd_def bwpStates_at_def)

lemma SetWifiInterference_simps:
  "j \<noteq> i \<Longrightarrow> m_bwpStates (SetWifiInterference c i mean) j = m_bwpStates c j"
  "currentCw (bwpStates_at (SetWifiInterference c i mean) j) = currentCw (bwpStates_at c j)"
  "(m_bwpStates (SetWifiInterference c i mean) j = None) = (m_bwpStates c j = None)"
  "m_cwMin (SetWifiInterference c i mean) = m_cwMin c"
  "m_cwMax (SetWifiInterference c i mean) = m_cwMax c"
  "m_mcotDuration (SetWifiInterference c i mean) = m_mcotDuration c"
  by (simp_all add: SetWifiInterference_def bwpStates_at_def split: option.splits)

lemma lbt_step_params:
  "m_cwMin (lbt_step c e) = m_cwMin c" "m_cwMax (lbt_step c e) = m_cwMax c"
  by (cases e; simp add: AddBwp_simps HandleWifiInterference_simps SetWifiInterference_simps ChannelAccessRequest_params)+

lemma lbt_run_params:
  "m_cwMin (lbt_run c es) = m_cwMin c" "m_cwMax (lbt_run c es) = m_cwMax c"
  by (induction es arbitrary: c; simp add: lbt_step_params)+

text \<open>The unfolding that evaluates the controller on concrete inputs.\<close>

lemmas lbt_eval = NrUeLbt_default_def AddBwp_def ScheduleWifiInterference_def bwpStates_upd_def
  bwpStates_at_def HandleWifiInterference_def UpdateFailureRate_def ChannelAccessRequest_def
  SetWifiInterference_def backoffSlots_of_def MilliSeconds_def GetSeconds_def Let_def
  d_add_def d_mul_def d_div_def d_neg_def BwpLbtState_zero_def
  GetContentionWindow_def GetFailureRate_def GetWifiOccupancy_def

subsection \<open>Queries for an unknown sub-band\<close>

lemma lbt_step_unnamed:
  "m_bwpStates c j = None \<Longrightarrow> \<not> names_bwp e j \<Longrightarrow> m_bwpStates (lbt_step c e) j = None"
  by (cases e)
    (auto simp: AddBwp_simps HandleWifiInterference_simps SetWifiInterference_simps
       ChannelAccessRequest_states)

lemma lbt_run_unnamed:
  "m_bwpStates c j = None \<Longrightarrow> leaves_alone es j \<Longrightarrow> m_bwpStates (lbt_run c es) j = None"
  by (induction es arbitrary: c) (auto simp: lbt_step_unnamed)

text \<open>
  Claim C8. Take a sub-band id that is not in the state map and any sequence of calls in
  which no registration, no access request and no interference arrival names it. Then
  \<^verbatim>\<open>GetFailureRate\<close>, \<^verbatim>\<open>GetWifiOccupancy\<close> and \<^verbatim>\<open>GetContentionWindow\<close> for that id
  return 0, 0 and \<^verbatim>\<open>m_cwMin\<close>. The three queries are \<^verbatim>\<open>const\<close> member functions that
  look the id up with \<^verbatim>\<open>find\<close>: they are functions of the controller and return no
  controller, so there is no state for them to change.
\<close>

theorem queries_unknown_bwp_defaults:
  assumes "m_bwpStates c i = None" and "leaves_alone es i"
  shows "GetFailureRate (lbt_run c es) i = Some 0 \<and>
         GetWifiOccupancy (lbt_run c es) i = Some 0 \<and>
         GetContentionWindow (lbt_run c es) i = m_cwMin c"
  using lbt_run_unnamed [OF assms]
  by (simp add: GetFailureRate_def GetWifiOccupancy_def GetContentionWindow_def lbt_run_params)

text \<open>
  The theorem at the default controller, after a registration, an access request and an
  interference arrival on sub-band 0 and a change of rate for sub-band 7, queried for
  sub-band 7.
\<close>

theorem queries_unknown_bwp_defaults_witness:
  "m_bwpStates NrUeLbt_default 7 = None \<and>
   leaves_alone [EvAddBwp 0 10 0, EvSetWifi 7 20, EvAccess 0 1000000 3, EvWifi 0 100000000 4] 7 \<and>
   GetFailureRate (lbt_run NrUeLbt_default
     [EvAddBwp 0 10 0, EvSetWifi 7 20, EvAccess 0 1000000 3, EvWifi 0 100000000 4]) 7 = Some 0 \<and>
   GetWifiOccupancy (lbt_run NrUeLbt_default
     [EvAddBwp 0 10 0, EvSetWifi 7 20, EvAccess 0 1000000 3, EvWifi 0 100000000 4]) 7 = Some 0 \<and>
   GetContentionWindow (lbt_run NrUeLbt_default
     [EvAddBwp 0 10 0, EvSetWifi 7 20, EvAccess 0 1000000 3, EvWifi 0 100000000 4]) 7 = 8"
proof -
  have h1: "m_bwpStates NrUeLbt_default 7 = None" by (simp add: NrUeLbt_default_def)
  have h2: "leaves_alone
      [EvAddBwp 0 10 0, EvSetWifi 7 20, EvAccess 0 1000000 3, EvWifi 0 100000000 4] 7"
    by simp
  have h3: "m_cwMin NrUeLbt_default = 8" by (simp add: NrUeLbt_default_def)
  show ?thesis using queries_unknown_bwp_defaults [OF h1 h2] h1 h2 h3 by simp
qed

subsection \<open>Bounds of the contention window\<close>

text \<open>
  Doubling in \<^verbatim>\<open>int\<close> and taking the smaller of the result and \<^verbatim>\<open>m_cwMax\<close> stays
  between the bounds.
\<close>

lemma doubled_cw_bounds:
  fixes cw lo hi :: "16 word"
  assumes "lo \<le> cw" "cw \<le> hi"
  shows "lo \<le> word_of_int (min (2 * uint cw) (uint hi))" "(word_of_int (min (2 * uint cw) (uint hi)) :: 16 word) \<le> hi"
proof -
  let ?k = "min (2 * uint cw) (uint hi)"
  have k0: "0 \<le> ?k" by simp
  have "uint hi < 2 ^ 16" using uint_bounded [of hi] by simp
  then have k1: "?k < 2 ^ 16" by simp
  have u: "uint (word_of_int ?k :: 16 word) = ?k"
    using k0 k1 by (simp add: uint_word_of_int take_bit_int_eq_self del: min_less_iff_disj)
  have a: "uint lo \<le> uint cw" "uint cw \<le> uint hi" using assms by (simp_all add: word_le_def)
  have "uint lo \<le> ?k" using a uint_ge_0 [of cw] by linarith
  then show "lo \<le> word_of_int ?k" unfolding word_le_def u .
  have "?k \<le> uint hi" by simp
  then show "(word_of_int ?k :: 16 word) \<le> hi" unfolding word_le_def u .
qed

lemma access_cw_ok:
  assumes "m_cwMin c \<le> m_cwMax c" "cw_ok c i"
  shows "cw_ok (snd (ChannelAccessRequest c j now r)) i"
proof (cases "j = i")
  case False
  then show ?thesis using assms(2)
    by (simp add: cw_ok_def ChannelAccessRequest_states ChannelAccessRequest_params)
next
  case True
  from assms(2) obtain s where s: "m_bwpStates c i = Some s" "m_cwMin c \<le> currentCw s" "currentCw s \<le> m_cwMax c"
    by (auto simp: cw_ok_def)
  have at: "bwpStates_at c i = s" using s(1) by (simp add: bwpStates_at_def)
  show ?thesis using True s(2,3) assms(1) doubled_cw_bounds [OF s(2,3)]
    by (simp add: cw_ok_def ChannelAccessRequest_states ChannelAccessRequest_params at Let_def)
qed

lemma step_cw_ok:
  assumes "m_cwMin c \<le> m_cwMax c" "cw_ok c i"
  shows "cw_ok (lbt_step c e) i"
proof (cases e)
  case (EvAddBwp j mean now)
  then show ?thesis using assms by (auto simp: cw_ok_def AddBwp_simps)
next
  case (EvAccess j now r)
  then show ?thesis using access_cw_ok [OF assms] by simp
next
  case (EvWifi j now rnd)
  show ?thesis
  proof (cases "j = i")
    case False then show ?thesis using assms(2) EvWifi by (simp add: cw_ok_def HandleWifiInterference_simps)
  next
    case True
    from assms(2) obtain s where s: "m_bwpStates c i = Some s" "m_cwMin c \<le> currentCw s" "currentCw s \<le> m_cwMax c"
      by (auto simp: cw_ok_def)
    have at: "bwpStates_at c i = s" using s(1) by (simp add: bwpStates_at_def)
    obtain s' where s': "m_bwpStates (HandleWifiInterference c i now rnd) i = Some s'"
      using HandleWifiInterference_simps(3) [of c i now rnd] by auto
    then have "bwpStates_at (HandleWifiInterference c i now rnd) i = s'" by (simp add: bwpStates_at_def)
    then have "currentCw s' = currentCw s" using HandleWifiInterference_simps(2) [of c i now rnd] at by simp
    then show ?thesis using True EvWifi s s' by (simp add: cw_ok_def HandleWifiInterference_simps)
  qed
next
  case (EvSetWifi j mean)
  from assms(2) obtain s where s: "m_bwpStates c i = Some s" "m_cwMin c \<le> currentCw s" "currentCw s \<le> m_cwMax c"
    by (auto simp: cw_ok_def)
  then show ?thesis using EvSetWifi
    by (auto simp: cw_ok_def SetWifiInterference_def split: option.splits)
qed

lemma run_cw_ok:
  "m_cwMin c \<le> m_cwMax c \<Longrightarrow> cw_ok c i \<Longrightarrow> cw_ok (lbt_run c es) i"
  by (induction es arbitrary: c) (simp_all add: step_cw_ok lbt_step_params)

text \<open>
  Claim C2. Let \<^verbatim>\<open>m_cwMin \<le> m_cwMax\<close> and let a sub-band be registered with \<^verbatim>\<open>AddBwp\<close>.
  After every sequence of calls that follows (access requests on this and on other
  sub-bands, interference arrivals, rate changes, registrations), the sub-band has a state
  whose contention window lies between \<^verbatim>\<open>m_cwMin\<close> and \<^verbatim>\<open>m_cwMax\<close>; and a further access
  request that is granted leaves the contention window equal to \<^verbatim>\<open>m_cwMin\<close>.
\<close>

theorem contention_window_bounds:
  assumes "m_cwMin c \<le> m_cwMax c"
  shows "(\<exists>s. m_bwpStates (lbt_run (AddBwp c i mean t0) es) i = Some s \<and>
              m_cwMin c \<le> currentCw s \<and> currentCw s \<le> m_cwMax c) \<and>
         (fst (ChannelAccessRequest (lbt_run (AddBwp c i mean t0) es) i now r) \<longrightarrow>
            GetContentionWindow (snd (ChannelAccessRequest (lbt_run (AddBwp c i mean t0) es) i now r)) i = m_cwMin c)"
proof -
  have "cw_ok (AddBwp c i mean t0) i" using assms by (simp add: cw_ok_def AddBwp_simps)
  then have "cw_ok (lbt_run (AddBwp c i mean t0) es) i"
    using assms by (simp add: run_cw_ok AddBwp_simps)
  then have a: "\<exists>s. m_bwpStates (lbt_run (AddBwp c i mean t0) es) i = Some s \<and>
              m_cwMin c \<le> currentCw s \<and> currentCw s \<le> m_cwMax c"
    by (simp add: cw_ok_def lbt_run_params AddBwp_simps)
  have b: "fst (ChannelAccessRequest (lbt_run (AddBwp c i mean t0) es) i now r) \<longrightarrow>
            GetContentionWindow (snd (ChannelAccessRequest (lbt_run (AddBwp c i mean t0) es) i now r)) i = m_cwMin c"
    by (simp add: GetContentionWindow_def ChannelAccessRequest_states ChannelAccessRequest_fst Let_def lbt_run_params AddBwp_simps)
  show ?thesis using a b by simp
qed

text \<open>
  The theorem at the default controller: sub-band 0 is registered, an access request is
  denied, interference arrives at 100 ms and keeps the channel busy until 101 ms, and the
  request made at 101 ms with a backoff of zero slots is granted.
\<close>

theorem contention_window_bounds_witness:
  "m_cwMin NrUeLbt_default \<le> m_cwMax NrUeLbt_default \<and>
   fst (ChannelAccessRequest
          (lbt_run (AddBwp NrUeLbt_default 0 10 0) [EvAccess 0 1000000 3, EvWifi 0 100000000 1])
          0 101000000 0) \<and>
   (\<exists>s. m_bwpStates (lbt_run (AddBwp NrUeLbt_default 0 10 0)
              [EvAccess 0 1000000 3, EvWifi 0 100000000 1]) 0 = Some s \<and>
        m_cwMin NrUeLbt_default \<le> currentCw s \<and> currentCw s \<le> m_cwMax NrUeLbt_default) \<and>
   GetContentionWindow (snd (ChannelAccessRequest
          (lbt_run (AddBwp NrUeLbt_default 0 10 0) [EvAccess 0 1000000 3, EvWifi 0 100000000 1])
          0 101000000 0)) 0 = 8"
proof -
  have h: "m_cwMin NrUeLbt_default \<le> m_cwMax NrUeLbt_default"
    by (simp add: NrUeLbt_default_def)
  have g: "fst (ChannelAccessRequest
          (lbt_run (AddBwp NrUeLbt_default 0 10 0) [EvAccess 0 1000000 3, EvWifi 0 100000000 1])
          0 101000000 0)"
    by (simp add: lbt_eval)
  have m: "m_cwMin NrUeLbt_default = 8" by (simp add: NrUeLbt_default_def)
  show ?thesis
    using contention_window_bounds [OF h, of 0 10 0 "[EvAccess 0 1000000 3, EvWifi 0 100000000 1]" 101000000 0] h g m
    by simp
qed

subsection \<open>Smoothing of the failure rate\<close>

text \<open>
  Claim C4. When an access request for a registered sub-band is denied, both counters
  have been incremented and the new failure rate is 0.9 times the old one plus 0.1 times
  the quotient of the new counters. The equation holds with the arithmetic of doubles,
  where a division by a counter that has wrapped to zero is not finite; for a finite old
  rate and a non-zero number of attempts it is the equation between reals.
\<close>

theorem failure_rate_smoothing:
  assumes "m_bwpStates c i = Some s" and "ChannelAccessRequest c i now r = (False, c')"
  shows "\<exists>s'. m_bwpStates c' i = Some s' \<and>
           totalAttempts s' = totalAttempts s + 1 \<and>
           totalFailures s' = totalFailures s + 1 \<and>
           lbtFailureRate s' =
             d_add (d_mul (Some 0.9) (lbtFailureRate s))
                   (d_mul (Some 0.1)
                      (d_div (Some (real (unat (totalFailures s'))))
                             (Some (real (unat (totalAttempts s')))))) \<and>
           (\<forall>f. lbtFailureRate s = Some f \<and> totalAttempts s' \<noteq> 0 \<longrightarrow>
              lbtFailureRate s' =
                Some (0.9 * f + 0.1 * (real (unat (totalFailures s')) / real (unat (totalAttempts s')))))"
proof -
  have at: "bwpStates_at c i = s" using assms(1) by (simp add: bwpStates_at_def)
  have c': "c' = snd (ChannelAccessRequest c i now r)" using assms(2) by simp
  have nf: "\<not> fst (ChannelAccessRequest c i now r)" using assms(2) by simp
  define rate where "rate =
     d_add (d_mul (Some 0.9) (lbtFailureRate s))
           (d_mul (Some 0.1)
              (d_div (Some (real (unat (totalFailures s + 1))))
                     (Some (real (unat (totalAttempts s + 1))))))"
  have ex: "\<exists>s'. m_bwpStates c' i = Some s' \<and>
           totalAttempts s' = totalAttempts s + 1 \<and>
           totalFailures s' = totalFailures s + 1 \<and>
           lbtFailureRate s' = rate"
    using nf unfolding c' rate_def
    by (auto simp: ChannelAccessRequest_states ChannelAccessRequest_fst at Let_def)
  then obtain s' where s': "m_bwpStates c' i = Some s'"
    "totalAttempts s' = totalAttempts s + 1" "totalFailures s' = totalFailures s + 1"
    "lbtFailureRate s' = rate" by blast
  have fin: "lbtFailureRate s' =
                Some (0.9 * f + 0.1 * (real (unat (totalFailures s')) / real (unat (totalAttempts s'))))"
    if "lbtFailureRate s = Some f" "totalAttempts s' \<noteq> 0" for f
    using that s'(2,3) unfolding s'(4) rate_def
    by (simp add: d_add_def d_mul_def d_div_def unsigned_eq_0_iff)
  have gen: "lbtFailureRate s' =
             d_add (d_mul (Some 0.9) (lbtFailureRate s))
                   (d_mul (Some 0.1)
                      (d_div (Some (real (unat (totalFailures s'))))
                             (Some (real (unat (totalAttempts s'))))))"
    unfolding s'(4) rate_def s'(2,3) ..
  show ?thesis using s'(1,2,3) gen fin by blast
qed

text \<open>
  The theorem at the first request for a freshly registered sub-band, which is denied:
  the rate goes from 0 to 0.9 * 0 + 0.1 * (1 / 1).
\<close>

theorem failure_rate_smoothing_witness:
  "m_bwpStates (AddBwp NrUeLbt_default 0 10 0) 0 \<noteq> None \<and>
   GetFailureRate (AddBwp NrUeLbt_default 0 10 0) 0 = Some 0 \<and>
   fst (ChannelAccessRequest (AddBwp NrUeLbt_default 0 10 0) 0 1000000 3) = False \<and>
   GetFailureRate (snd (ChannelAccessRequest (AddBwp NrUeLbt_default 0 10 0) 0 1000000 3)) 0
     = Some (1 / 10)"
proof -
  obtain s where s: "m_bwpStates (AddBwp NrUeLbt_default 0 10 0) 0 = Some s"
    and f: "lbtFailureRate s = Some 0" and ta: "totalAttempts s = 0" and tf: "totalFailures s = 0"
    by (simp add: AddBwp_simps)
  obtain c' where r: "ChannelAccessRequest (AddBwp NrUeLbt_default 0 10 0) 0 1000000 3 = (False, c')"
    by (simp add: lbt_eval)
  from failure_rate_smoothing [OF s r] f ta tf
  have "\<exists>s'. m_bwpStates c' 0 = Some s' \<and> lbtFailureRate s' = Some (1 / 10)"
    by auto
  then show ?thesis using s r f by (auto simp: GetFailureRate_def)
qed

subsection \<open>An access request for a sub-band that was never registered\<close>

text \<open>
  Claim C10, amended. An access request for an id that is not in the state map behaves
  as the request on a map that holds the all-zero state for this id, whose contention
  window is 0 and not \<^verbatim>\<open>m_cwMin\<close>. Afterwards the id is in the map with one attempt
  counted, and its contention window is \<^verbatim>\<open>m_cwMin\<close> if the request was granted and still
  0 if it was denied, which is below \<^verbatim>\<open>m_cwMin\<close> whenever \<^verbatim>\<open>m_cwMin\<close> is positive. The
  immediate check passes at every time from 0 on. The random variable is then asked for
  a value between 0 and 4294967295, the \<^verbatim>\<open>uint32_t\<close> that \<^verbatim>\<open>state.currentCw - 1\<close> becomes
  for a contention window of 0: every \<^verbatim>\<open>uint32_t\<close> is a possible draw, and the number
  of backoff slots, its low 16 bits, can be any \<^verbatim>\<open>uint16_t\<close> up to 65535.
\<close>

theorem access_unregistered_inserts_zero_state:
  assumes "m_bwpStates c i = None"
  shows "ChannelAccessRequest c i now r =
           ChannelAccessRequest (c\<lparr>m_bwpStates := (m_bwpStates c)(i \<mapsto> BwpLbtState_zero)\<rparr>) i now r \<and>
         currentCw BwpLbtState_zero = 0 \<and>
         (\<exists>s'. m_bwpStates (snd (ChannelAccessRequest c i now r)) i = Some s' \<and>
               totalAttempts s' = 1 \<and>
               currentCw s' = (if fst (ChannelAccessRequest c i now r) then m_cwMin c else 0)) \<and>
         (0 < m_cwMin c \<and> \<not> fst (ChannelAccessRequest c i now r) \<longrightarrow>
            GetContentionWindow (snd (ChannelAccessRequest c i now r)) i < m_cwMin c) \<and>
         (0 \<le> now \<longrightarrow> \<not> now < channelBusyUntil (bwpStates_at c i)) \<and>
         ecca_upper (currentCw (bwpStates_at c i)) = 4294967295 \<and>
         ChannelAccessRequest_rng c i now rng =
           ChannelAccessRequest c i now (rng 0 4294967295) \<and>
         GetInteger_ok 0 4294967295 r \<and>
         (\<exists>r'. GetInteger_ok 0 4294967295 r' \<and> backoffSlots_of r' = b)"
proof -
  have at: "bwpStates_at c i = BwpLbtState_zero" using assms by (simp add: bwpStates_at_def)
  have at': "bwpStates_at (c\<lparr>m_bwpStates := (m_bwpStates c)(i \<mapsto> BwpLbtState_zero)\<rparr>) i = BwpLbtState_zero"
    by (simp add: bwpStates_at_def)
  have 1: "ChannelAccessRequest c i now r =
           ChannelAccessRequest (c\<lparr>m_bwpStates := (m_bwpStates c)(i \<mapsto> BwpLbtState_zero)\<rparr>) i now r"
    by (simp add: ChannelAccessRequest_def bwpStates_upd_def UpdateFailureRate_def at at' Let_def)
  have 2: "currentCw BwpLbtState_zero = 0" by (simp add: BwpLbtState_zero_def)
  have 3: "\<exists>s'. m_bwpStates (snd (ChannelAccessRequest c i now r)) i = Some s' \<and>
               totalAttempts s' = 1 \<and>
               currentCw s' = (if fst (ChannelAccessRequest c i now r) then m_cwMin c else 0)"
    by (simp add: ChannelAccessRequest_states ChannelAccessRequest_fst at Let_def BwpLbtState_zero_def)
  have 4: "0 < m_cwMin c \<and> \<not> fst (ChannelAccessRequest c i now r) \<longrightarrow>
            GetContentionWindow (snd (ChannelAccessRequest c i now r)) i < m_cwMin c"
    using 3 by (auto simp: GetContentionWindow_def)
  have 5: "0 \<le> now \<longrightarrow> \<not> now < channelBusyUntil (bwpStates_at c i)"
    by (simp add: at BwpLbtState_zero_def)
  have up: "ecca_upper (currentCw (bwpStates_at c i)) = 4294967295"
    by (simp add: at BwpLbtState_zero_def ecca_upper_def)
  have 6: "ChannelAccessRequest_rng c i now rng = ChannelAccessRequest c i now (rng 0 4294967295)"
    by (simp add: ChannelAccessRequest_rng_def up)
  have top: "(4294967295 :: 32 word) = - 1" by simp
  have 7: "GetInteger_ok 0 4294967295 x" for x
    unfolding top by (simp add: GetInteger_ok_def)
  have "backoffSlots_of (ucast b) = b"
    unfolding backoffSlots_of_def by (rule bit_word_eqI) (auto simp: bit_simps)
  then have 8: "\<exists>r'. GetInteger_ok 0 4294967295 r' \<and> backoffSlots_of r' = b"
    using 7 by blast
  show ?thesis using 1 2 3 4 5 up 6 7 8 by blast
qed

text \<open>
  The theorem at the default controller with no sub-band registered: a request for
  sub-band 3 at 1 ms that draws 40000 is denied and leaves a contention window of 0.
\<close>

theorem access_unregistered_inserts_zero_state_witness:
  "m_bwpStates NrUeLbt_default 3 = None \<and> 0 < m_cwMin NrUeLbt_default \<and> (0::int) \<le> 1000000 \<and>
   \<not> fst (ChannelAccessRequest NrUeLbt_default 3 1000000 40000) \<and>
   m_bwpStates (snd (ChannelAccessRequest NrUeLbt_default 3 1000000 40000)) 3 \<noteq> None \<and>
   GetContentionWindow (snd (ChannelAccessRequest NrUeLbt_default 3 1000000 40000)) 3 = 0 \<and>
   GetContentionWindow (snd (ChannelAccessRequest NrUeLbt_default 3 1000000 40000)) 3
     < m_cwMin NrUeLbt_default \<and>
   ChannelAccessRequest_rng NrUeLbt_default 3 1000000 draw_largest =
     ChannelAccessRequest NrUeLbt_default 3 1000000 4294967295 \<and>
   (\<exists>r'. GetInteger_ok 0 4294967295 r' \<and> backoffSlots_of r' = 65535)"
proof -
  have h: "m_bwpStates NrUeLbt_default 3 = None" by (simp add: NrUeLbt_default_def)
  have m: "0 < m_cwMin NrUeLbt_default" by (simp add: NrUeLbt_default_def)
  have d: "\<not> fst (ChannelAccessRequest NrUeLbt_default 3 1000000 40000)"
    by (simp add: lbt_eval)
  have l: "draw_largest 0 4294967295 = 4294967295" by (simp add: draw_largest_def)
  show ?thesis
    using access_unregistered_inserts_zero_state [OF h, of 1000000 40000 draw_largest 65535] h m d
    unfolding l by (auto simp: GetContentionWindow_def)
qed

text \<open>
  The upper bound of the draw is not 65535. For sub-band 3 on the default controller at
  time 0 the random variable that answers its largest value answers 4294967295; the
  value 65536 is within the bounds, counts as zero slots and has the request granted.
\<close>

theorem access_unregistered_draw_bound_counterexample:
  "m_bwpStates NrUeLbt_default 3 = None \<and>
   ecca_upper (currentCw (bwpStates_at NrUeLbt_default 3)) = 4294967295 \<and>
   ecca_upper (currentCw (bwpStates_at NrUeLbt_default 3)) \<noteq> 65535 \<and>
   ChannelAccessRequest_rng NrUeLbt_default 3 0 draw_largest =
     ChannelAccessRequest NrUeLbt_default 3 0 4294967295 \<and>
   GetInteger_ok 0 (ecca_upper (currentCw (bwpStates_at NrUeLbt_default 3))) 65536 \<and>
   \<not> GetInteger_ok 0 65535 65536 \<and>
   backoffSlots_of 65536 = 0 \<and>
   fst (ChannelAccessRequest NrUeLbt_default 3 0 65536)"
proof -
  have up: "ecca_upper (currentCw (bwpStates_at NrUeLbt_default 3)) = 4294967295"
    by (simp add: NrUeLbt_default_def bwpStates_at_def BwpLbtState_zero_def ecca_upper_def)
  have n: "m_bwpStates NrUeLbt_default 3 = None" by (simp add: NrUeLbt_default_def)
  have ne: "(4294967295 :: 32 word) \<noteq> 65535" by simp
  have w: "ChannelAccessRequest_rng NrUeLbt_default 3 0 draw_largest =
     ChannelAccessRequest NrUeLbt_default 3 0 4294967295"
    by (simp add: ChannelAccessRequest_rng_def draw_largest_def up)
  have i: "GetInteger_ok 0 4294967295 65536" "\<not> GetInteger_ok 0 65535 65536"
    by (simp_all add: GetInteger_ok_def)
  have b: "backoffSlots_of 65536 = 0" by (simp add: backoffSlots_of_def)
  have g: "fst (ChannelAccessRequest NrUeLbt_default 3 0 65536)"
    by (simp add: lbt_eval)
  show ?thesis unfolding up using n ne w i b g by blast
qed

subsection \<open>The extended check\<close>

text \<open>
  The time a backoff takes is not negative, so a request is granted only at the very
  instant the busy period ends and only with a backoff that takes no time.
\<close>

lemma MilliSeconds_nonneg: "0 \<le> x \<Longrightarrow> 0 \<le> MilliSeconds x"
  by (simp add: MilliSeconds_def)

lemma ChannelAccessRequest_granted_iff:
  "fst (ChannelAccessRequest c i now r) \<longleftrightarrow>
     now = channelBusyUntil (bwpStates_at c i) \<and>
     MilliSeconds (real (unat (backoffSlots_of r)) * 0.5) = 0"
proof -
  have "0 \<le> MilliSeconds (real (unat (backoffSlots_of r)) * 0.5)"
    by (rule MilliSeconds_nonneg) (simp del: of_nat_unat)
  then show ?thesis unfolding ChannelAccessRequest_fst by linarith
qed

text \<open>
  Claim C1. The claim is that, once the immediate check has passed, the request is
  denied exactly when the channel is still busy at the time the backoff completes, and
  is granted otherwise, with the contention window reset to \<^verbatim>\<open>m_cwMin\<close> and
  \<^verbatim>\<open>channelOccupiedUntil\<close> set. The code compares the other way round
  (\<^verbatim>\<open>endTime > state.channelBusyUntil\<close>). Sub-band 0 is registered at time 0 on the default
  controller and no interference ever arrives, so the channel is busy until time 0 only.
  A request at 1 ms that draws a backoff of zero slots passes the immediate check and
  completes at 1 ms, when the channel is idle; it is denied, a failure is counted, the
  failure rate becomes 0.1 and the contention window doubles from 8 to 16.
\<close>

theorem ecca_denies_idle_channel:
  "ChannelAccessRequest (AddBwp NrUeLbt_default 0 10 0) 0 1000000 0 =
     (False,
      NrUeLbt_default\<lparr>m_bwpStates := [0 \<mapsto>
        \<lparr>bwpId = 0, currentCw = 16, wifiPoissonMean = 10, wifiOccupancy = Some 0,
         lbtFailureRate = Some (1 / 10), totalAttempts = 1, totalFailures = 1,
         channelBusyUntil = 0, channelOccupiedUntil = 0, lastUpdateTime = 0\<rparr>]\<rparr>)"
  by (simp add: lbt_eval)

subsection \<open>The range of the smoothed statistics\<close>

text \<open>
  The failure rate stays between 0 and 1 across an access request, granted or denied, as
  long as the counter of attempts does not wrap.
\<close>

lemma smoothed_in_unit_interval:
  fixes f q :: real
  assumes "0 \<le> f" "f \<le> 1" "0 \<le> q" "q \<le> 1"
  shows "0 \<le> 0.9 * f + 0.1 * q" "0.9 * f + 0.1 * q \<le> 1"
  using assms by simp_all

lemma failure_rate_stays_in_unit_interval:
  assumes "m_bwpStates c i = Some s" "lbtFailureRate s = Some f" "0 \<le> f" "f \<le> 1"
    and "unat (totalFailures s) \<le> unat (totalAttempts s)" "totalAttempts s + 1 \<noteq> 0"
  shows "\<exists>s' f'. m_bwpStates (snd (ChannelAccessRequest c i now r)) i = Some s' \<and>
           lbtFailureRate s' = Some f' \<and> 0 \<le> f' \<and> f' \<le> 1 \<and>
           unat (totalFailures s') \<le> unat (totalAttempts s')"
proof -
  have at: "bwpStates_at c i = s" using assms(1) by (simp add: bwpStates_at_def)
  have a: "unat (totalAttempts s + 1) = Suc (unat (totalAttempts s))"
    using unatSuc [of "totalAttempts s"] assms(6) by (simp add: add.commute)
  have "unat (totalFailures s + 1) \<le> unat (totalFailures s) + 1"
    by (simp add: unat_word_ariths)
  then have fa: "unat (totalFailures s + 1) \<le> unat (totalAttempts s + 1)"
    using assms(5) a by simp
  define q where "q = real (unat (totalFailures s + 1)) / real (unat (totalAttempts s + 1))"
  have q: "0 \<le> q" "q \<le> 1"
    using fa a unfolding q_def by (simp_all add: divide_le_eq_1 del: of_nat_unat)
  have pos: "real (unat (totalAttempts s + 1)) \<noteq> 0" using a by (simp del: of_nat_unat)
  note in01 = smoothed_in_unit_interval [OF assms(3,4) q]
  show ?thesis
  proof (cases "fst (ChannelAccessRequest c i now r)")
    case True
    then show ?thesis
      using assms(2-5) a
      by (auto simp: ChannelAccessRequest_states ChannelAccessRequest_fst at Let_def)
  next
    case False
    then show ?thesis
      using assms(2) fa in01 pos unfolding q_def
      by (auto simp: ChannelAccessRequest_states ChannelAccessRequest_fst at Let_def
            d_add_def d_mul_def d_div_def simp del: of_nat_unat)
  qed
qed

text \<open>
  Claim C7. The claim is that the smoothed failure rate and the smoothed occupancy stay
  in the interval from 0 to 1. The occupancy sample is the busy time in milliseconds
  divided by the elapsed time in seconds and is not bounded by 1. Sub-band 0 is
  registered at time 0 on the default controller; interference arrives at 100 ms with
  \<^verbatim>\<open>rand () % 5 = 4\<close>, that is five busy slots. The sample is 2.5 / 0.1 = 25 and the
  occupancy becomes 0.9 * 0 + 0.1 * 25 = 2.5.
\<close>

theorem wifi_occupancy_exceeds_one:
  "GetWifiOccupancy (HandleWifiInterference (AddBwp NrUeLbt_default 0 10 0) 0 100000000 4) 0
     = Some (5 / 2)"
  by (simp add: lbt_eval)

section \<open>Properties of the registry\<close>

subsection \<open>Every call keeps the registry consistent\<close>

lemma ues_on_AddUe:
  "m_ueMap m ue = None \<Longrightarrow>
   ues_on (AddUe m ue) b = (if b = m_defaultBwpId m then insert ue (ues_on m b) else ues_on m b)"
  by (auto simp: ues_on_def AddUe_def bwpMap_upd_def)

lemma ue_notin_ues_on: "m_ueMap m ue = None \<Longrightarrow> ue \<notin> ues_on m b"
  by (simp add: ues_on_def)

lemma AddUe_inv:
  assumes "registry_inv m" shows "registry_inv (AddUe m ue)"
proof (cases "m_ueMap m ue = None")
  case False then show ?thesis using assms by (auto simp: AddUe_def)
next
  case True
  have a: "\<forall>u b. m_ueMap (AddUe m ue) u = Some b \<longrightarrow> m_bwpMap (AddUe m ue) b \<noteq> None"
    using assms True by (auto simp: registry_inv_def AddUe_def bwpMap_upd_def)
  have b: "activeUes x = of_nat (card (ues_on (AddUe m ue) b))"
    if "m_bwpMap (AddUe m ue) b = Some x" for b x
  proof (cases "b = m_defaultBwpId m")
    case False
    then have "m_bwpMap m b = Some x" using that True by (simp add: AddUe_def bwpMap_upd_def)
    then have "activeUes x = of_nat (card (ues_on m b))" using assms by (simp add: registry_inv_def)
    then show ?thesis using False True by (simp add: ues_on_AddUe)
  next
    case bd: True
    have x: "x = (bwpMap_at m b)\<lparr>activeUes := activeUes (bwpMap_at m b) + 1\<rparr>"
      using that True bd by (simp add: AddUe_def bwpMap_upd_def bwpMap_at_def)
    have old: "activeUes (bwpMap_at m b) = of_nat (card (ues_on m b))"
    proof (cases "m_bwpMap m b")
      case None
      then have "ues_on m b = {}" using assms unfolding registry_inv_def ues_on_def by blast
      then show ?thesis using None by (simp add: bwpMap_at_def BwpInfo_zero_def)
    next
      case (Some y) then show ?thesis using assms by (simp add: registry_inv_def bwpMap_at_def)
    qed
    have "card (ues_on (AddUe m ue) b) = Suc (card (ues_on m b))"
      using True bd ue_notin_ues_on [OF True, of b] by (simp add: ues_on_AddUe)
    then show ?thesis using x old by simp
  qed
  show ?thesis unfolding registry_inv_def using a b by blast
qed

lemma RemoveUe_inv:
  assumes "registry_inv m" shows "registry_inv (RemoveUe m ue)"
proof (cases "m_ueMap m ue")
  case None then show ?thesis using assms by (simp add: RemoveUe_def)
next
  case (Some ob)
  have on: "ues_on (RemoveUe m ue) b = (if b = ob then ues_on m b - {ue} else ues_on m b)" for b
    using Some by (auto simp: ues_on_def RemoveUe_def bwpMap_upd_def)
  have mem: "ue \<in> ues_on m ob" using Some by (simp add: ues_on_def)
  have a: "\<forall>u b. m_ueMap (RemoveUe m ue) u = Some b \<longrightarrow> m_bwpMap (RemoveUe m ue) b \<noteq> None"
    using assms Some by (auto simp: registry_inv_def RemoveUe_def bwpMap_upd_def)
  have b: "activeUes x = of_nat (card (ues_on (RemoveUe m ue) b))"
    if "m_bwpMap (RemoveUe m ue) b = Some x" for b x
  proof (cases "b = ob")
    case False
    then have "m_bwpMap m b = Some x" using that Some by (simp add: RemoveUe_def bwpMap_upd_def)
    then have "activeUes x = of_nat (card (ues_on m b))" using assms by (simp add: registry_inv_def)
    then show ?thesis using False by (simp add: on)
  next
    case bd: True
    from assms Some have "m_bwpMap m ob \<noteq> None" unfolding registry_inv_def by blast
    then obtain y where y: "m_bwpMap m ob = Some y" by auto
    have x: "x = y\<lparr>activeUes := activeUes y - 1\<rparr>"
      using that Some bd y by (simp add: RemoveUe_def bwpMap_upd_def bwpMap_at_def)
    have old: "activeUes y = of_nat (card (ues_on m ob))"
      using assms y by (simp add: registry_inv_def)
    have "Suc (card (ues_on m ob - {ue})) = card (ues_on m ob)"
      by (rule card_Suc_Diff1) (simp_all add: mem)
    then have "card (ues_on m ob) = Suc (card (ues_on (RemoveUe m ue) ob))"
      by (simp add: on)
    then show ?thesis using x old bd by simp
  qed
  show ?thesis unfolding registry_inv_def using a b by blast
qed

lemma SwitchBwp_moves:
  assumes "m_ueMap m ue = Some ob" "m_bwpMap m nb \<noteq> None" "ob \<noteq> nb"
  shows "SwitchBwp m ue nb =
           (bwpMap_upd (bwpMap_upd m ob (\<lambda>x. x\<lparr>activeUes := activeUes x - 1\<rparr>))
               nb (\<lambda>x. x\<lparr>activeUes := activeUes x + 1\<rparr>))\<lparr>m_ueMap := (m_ueMap m)(ue \<mapsto> nb)\<rparr>"
  using assms by (auto simp: SwitchBwp_def)

lemma SwitchBwp_noop:
  "\<not> (\<exists>ob. m_ueMap m ue = Some ob \<and> ob \<noteq> nb \<and> m_bwpMap m nb \<noteq> None) \<Longrightarrow> SwitchBwp m ue nb = m"
  by (auto simp: SwitchBwp_def split: option.splits)

lemma SwitchBwp_inv:
  assumes "registry_inv m" shows "registry_inv (SwitchBwp m ue nb)"
proof (cases "\<exists>ob. m_ueMap m ue = Some ob \<and> ob \<noteq> nb \<and> m_bwpMap m nb \<noteq> None")
  case False then show ?thesis using assms by (simp add: SwitchBwp_noop)
next
  case True
  then obtain ob where ob: "m_ueMap m ue = Some ob" "ob \<noteq> nb" "m_bwpMap m nb \<noteq> None" by blast
  note sw = SwitchBwp_moves [OF ob(1) ob(3) ob(2)]
  from assms ob(1) have "m_bwpMap m ob \<noteq> None" unfolding registry_inv_def by blast
  then obtain y where y: "m_bwpMap m ob = Some y" by auto
  obtain z where z: "m_bwpMap m nb = Some z" using ob(3) by auto
  have on: "ues_on (SwitchBwp m ue nb) b =
      (if b = ob then ues_on m b - {ue} else if b = nb then insert ue (ues_on m b) else ues_on m b)" for b
    using ob unfolding sw by (auto simp: ues_on_def bwpMap_upd_def)
  have mem: "ue \<in> ues_on m ob" "ue \<notin> ues_on m nb" using ob by (simp_all add: ues_on_def)
  have a: "\<forall>u b. m_ueMap (SwitchBwp m ue nb) u = Some b \<longrightarrow> m_bwpMap (SwitchBwp m ue nb) b \<noteq> None"
    using assms ob unfolding sw by (auto simp: registry_inv_def bwpMap_upd_def)
  have b: "activeUes x = of_nat (card (ues_on (SwitchBwp m ue nb) b))"
    if "m_bwpMap (SwitchBwp m ue nb) b = Some x" for b x
  proof -
    consider "b = ob" | "b = nb" | "b \<noteq> ob" "b \<noteq> nb" by blast
    then show ?thesis
    proof cases
      case 1
      have x: "x = y\<lparr>activeUes := activeUes y - 1\<rparr>"
        using that 1 ob y unfolding sw by (simp add: bwpMap_upd_def bwpMap_at_def)
      have old: "activeUes y = of_nat (card (ues_on m ob))"
        using assms y by (simp add: registry_inv_def)
      have "Suc (card (ues_on m ob - {ue})) = card (ues_on m ob)"
        by (rule card_Suc_Diff1) (simp_all add: mem)
      then have "card (ues_on m ob) = Suc (card (ues_on (SwitchBwp m ue nb) ob))"
        by (simp add: on)
      then show ?thesis using x old 1 by simp
    next
      case 2
      have x: "x = z\<lparr>activeUes := activeUes z + 1\<rparr>"
        using that 2 ob z unfolding sw by (simp add: bwpMap_upd_def bwpMap_at_def)
      have old: "activeUes z = of_nat (card (ues_on m nb))"
        using assms z by (simp add: registry_inv_def)
      have "card (ues_on (SwitchBwp m ue nb) nb) = Suc (card (ues_on m nb))"
        using mem ob by (simp add: on)
      then show ?thesis using x old 2 by simp
    next
      case 3
      then have "m_bwpMap m b = Some x" using that unfolding sw by (simp add: bwpMap_upd_def)
      then have "activeUes x = of_nat (card (ues_on m b))" using assms by (simp add: registry_inv_def)
      then show ?thesis using 3 by (simp add: on)
    qed
  qed
  show ?thesis unfolding registry_inv_def using a b by blast
qed

lemma reg_run_inv: "registry_inv m \<Longrightarrow> registry_inv (reg_run m ps)"
proof (induction ps arbitrary: m)
  case Nil then show ?case by simp
next
  case (Cons p ps)
  have "registry_inv (reg_step m p)"
    using Cons.prems by (cases p) (simp_all add: AddUe_inv RemoveUe_inv SwitchBwp_inv)
  then show ?case using Cons.IH by simp
qed

lemma registry_inv_no_ues:
  assumes "m_ueMap m = Map.empty" "\<forall>b x. m_bwpMap m b = Some x \<longrightarrow> activeUes x = 0"
  shows "registry_inv m"
  using assms by (simp add: registry_inv_def ues_on_def)

subsection \<open>Counters and terminals\<close>

lemma dom_ueMap_UN:
  assumes "registry_inv m"
  shows "dom (m_ueMap m) = (\<Union>b \<in> dom (m_bwpMap m). ues_on m b)"
  using assms by (auto simp: registry_inv_def ues_on_def)

lemma ues_on_subset: "ues_on m b \<subseteq> dom (m_ueMap m)"
  by (auto simp: ues_on_def)

lemma inv_sum:
  assumes "registry_inv m" "num_ues m < 65536"
  shows "sum_active m = num_ues m"
proof -
  have le: "card (ues_on m b) \<le> num_ues m" for b
    unfolding num_ues_def by (rule card_mono) (simp_all add: ues_on_subset)
  have act: "unat (GetActiveUes m b) = card (ues_on m b)" if "b \<in> dom (m_bwpMap m)" for b
  proof -
    from that obtain x where x: "m_bwpMap m b = Some x" by auto
    then have "activeUes x = of_nat (card (ues_on m b))" using assms(1) by (simp add: registry_inv_def)
    moreover have "card (ues_on m b) < 2 ^ LENGTH(16)" using le [of b] assms(2) by simp
    ultimately show ?thesis using x by (simp add: GetActiveUes_def unat_of_nat)
  qed
  have "sum_active m = (\<Sum>b \<in> dom (m_bwpMap m). card (ues_on m b))"
    unfolding sum_active_def by (rule sum.cong) (simp_all add: act)
  also have "\<dots> = card (\<Union>b \<in> dom (m_bwpMap m). ues_on m b)"
    by (rule card_UN_disjoint [symmetric]) (auto simp: ues_on_def)
  also have "\<dots> = num_ues m" using dom_ueMap_UN [OF assms(1)] by (simp add: num_ues_def)
  finally show ?thesis .
qed

lemma inv_counts:
  assumes "registry_inv m" "b \<in> dom (m_bwpMap m)"
  shows "unat (GetActiveUes m b) = card (ues_on m b) mod 65536"
proof -
  from assms(2) obtain x where x: "m_bwpMap m b = Some x" by auto
  then have "activeUes x = of_nat (card (ues_on m b))" using assms(1) by (simp add: registry_inv_def)
  then show ?thesis using x by (simp add: GetActiveUes_def unat_of_nat)
qed

lemma SwitchBwp_atomic:
  "if (\<exists>ob. m_ueMap m ue = Some ob \<and> ob \<noteq> nb) \<and> m_bwpMap m nb \<noteq> None
   then GetUeBwp (SwitchBwp m ue nb) ue = nb \<and>
        GetActiveUes (SwitchBwp m ue nb) nb = GetActiveUes m nb + 1 \<and>
        GetActiveUes (SwitchBwp m ue nb) (GetUeBwp m ue) = GetActiveUes m (GetUeBwp m ue) - 1
   else SwitchBwp m ue nb = m"
  by (auto simp: SwitchBwp_def GetUeBwp_def GetActiveUes_def bwpMap_upd_def bwpMap_at_def BwpInfo_zero_def
      split: option.splits)


text \<open>
  Claim C3, amended. Start from a consistent registry and make any sequence of
  \<^verbatim>\<open>AddUe\<close>, \<^verbatim>\<open>RemoveUe\<close> and \<^verbatim>\<open>SwitchBwp\<close> calls. Each counter is then the number of
  terminals on its sub-band modulo 65536, and the sum of the counters is the number of
  registered terminals whenever fewer than 65536 terminals are registered. A
  \<^verbatim>\<open>SwitchBwp\<close> of a registered terminal to another registered sub-band records the new
  sub-band for the terminal, adds one to its counter and takes one from the counter of
  the old sub-band; every other \<^verbatim>\<open>SwitchBwp\<close> leaves the registry as it was.
\<close>

theorem assignment_conservation:
  assumes "registry_inv m"
  shows "(num_ues (reg_run m ps) < 65536 \<longrightarrow> sum_active (reg_run m ps) = num_ues (reg_run m ps)) \<and>
         (\<forall>b \<in> dom (m_bwpMap (reg_run m ps)).
            unat (GetActiveUes (reg_run m ps) b) = card (ues_on (reg_run m ps) b) mod 65536) \<and>
         (if (\<exists>ob. m_ueMap m ue = Some ob \<and> ob \<noteq> nb) \<and> m_bwpMap m nb \<noteq> None
          then GetUeBwp (SwitchBwp m ue nb) ue = nb \<and>
               GetActiveUes (SwitchBwp m ue nb) nb = GetActiveUes m nb + 1 \<and>
               GetActiveUes (SwitchBwp m ue nb) (GetUeBwp m ue) = GetActiveUes m (GetUeBwp m ue) - 1
          else SwitchBwp m ue nb = m)"
proof -
  have inv: "registry_inv (reg_run m ps)" using assms by (rule reg_run_inv)
  show ?thesis using inv_sum [OF inv] inv_counts [OF inv] SwitchBwp_atomic [of m ue nb] by blast
qed

text \<open>
  The theorem at a registry with sub-bands 0 and 1 and terminal 5 on sub-band 0: after
  adding terminal 6, switching terminal 5, removing terminal 6 and adding terminal 7
  the counters sum to 2, the number of terminals.
\<close>

theorem assignment_conservation_witness:
  "registry_inv registry_two_bwps \<and>
   num_ues (reg_run registry_two_bwps [OpAddUe 6, OpSwitchBwp 5 1, OpRemoveUe 6, OpAddUe 7]) < 65536 \<and>
   sum_active (reg_run registry_two_bwps [OpAddUe 6, OpSwitchBwp 5 1, OpRemoveUe 6, OpAddUe 7]) = 2 \<and>
   num_ues (reg_run registry_two_bwps [OpAddUe 6, OpSwitchBwp 5 1, OpRemoveUe 6, OpAddUe 7]) = 2 \<and>
   m_ueMap registry_two_bwps 5 = Some 0 \<and> m_bwpMap registry_two_bwps 1 \<noteq> None \<and>
   GetUeBwp (SwitchBwp registry_two_bwps 5 1) 5 = 1 \<and>
   GetActiveUes (SwitchBwp registry_two_bwps 5 1) 1 = 1 \<and>
   GetActiveUes (SwitchBwp registry_two_bwps 5 1) 0 = 0"
proof -
  let ?ps = "[OpAddUe 6, OpSwitchBwp 5 1, OpRemoveUe 6, OpAddUe 7]"
  have "registry_inv (BwpManager_AddBwp (BwpManager_AddBwp NrUeBwpManager_default 0 10) 1 10)"
    by (rule registry_inv_no_ues) (simp_all add: BwpManager_AddBwp_def NrUeBwpManager_default_def)
  then have inv: "registry_inv registry_two_bwps"
    unfolding registry_two_bwps_def by (rule AddUe_inv)
  have ue: "m_ueMap (reg_run registry_two_bwps ?ps) = [5 \<mapsto> 1, 7 \<mapsto> 0]"
    by (simp add: registry_two_bwps_def BwpManager_AddBwp_def NrUeBwpManager_default_def
          AddUe_def RemoveUe_def SwitchBwp_def bwpMap_upd_def bwpMap_at_def fun_eq_iff)
  have n: "num_ues (reg_run registry_two_bwps ?ps) = 2"
    unfolding num_ues_def ue by simp
  have st: "m_ueMap registry_two_bwps 5 = Some 0" "m_bwpMap registry_two_bwps 1 \<noteq> None"
     "GetUeBwp registry_two_bwps 5 = 0" "GetActiveUes registry_two_bwps 1 = 0"
     "GetActiveUes registry_two_bwps 0 = 1"
    by (simp_all add: registry_two_bwps_def BwpManager_AddBwp_def NrUeBwpManager_default_def
          AddUe_def bwpMap_upd_def bwpMap_at_def GetUeBwp_def GetActiveUes_def)
  show ?thesis
    using assignment_conservation [OF inv, of ?ps 5 1] inv n st by auto
qed

text \<open>
  The claim without the bound fails. Adding the 65536 terminals 0, 1, ..., 65535 to a
  registry whose only sub-band is the default one wraps its counter to 0.
\<close>

lemma reg_run_append: "reg_run m (ps @ qs) = reg_run (reg_run m ps) qs"
  by (induction ps arbitrary: m) simp_all

lemma add_ue_ops_Suc: "add_ue_ops (Suc n) = add_ue_ops n @ [OpAddUe (of_nat n)]"
  by (simp add: add_ue_ops_def)

lemma unat_less_Suc_16:
  fixes u :: "16 word"
  assumes "n < 65536"
  shows "unat u < Suc n \<longleftrightarrow> unat u < n \<or> u = of_nat n"
proof -
  have "unat (of_nat n :: 16 word) = n" using assms by (simp add: unat_of_nat)
  then have "u = of_nat n \<longleftrightarrow> unat u = n" by (simp add: word_unat_eq_iff)
  then show ?thesis by auto
qed

lemma add_ue_ops_state:
  "n \<le> 65536 \<Longrightarrow>
   (\<forall>b. m_bwpMap (reg_run registry_one_bwp (add_ue_ops n)) b =
      (if b = 0 then Some \<lparr>bi_bwpId = 0, numRbs = 10, activeUes = of_nat n\<rparr> else None)) \<and>
   (\<forall>u. m_ueMap (reg_run registry_one_bwp (add_ue_ops n)) u =
      (if unat u < n then Some 0 else None)) \<and>
   m_defaultBwpId (reg_run registry_one_bwp (add_ue_ops n)) = 0"
proof (induction n)
  case 0
  then show ?case
    by (simp add: add_ue_ops_def registry_one_bwp_def BwpManager_AddBwp_def NrUeBwpManager_default_def)
next
  case (Suc n)
  then have n: "n < 65536" by simp
  let ?m = "reg_run registry_one_bwp (add_ue_ops n)"
  have ih: "\<And>b. m_bwpMap ?m b =
      (if b = 0 then Some \<lparr>bi_bwpId = 0, numRbs = 10, activeUes = of_nat n\<rparr> else None)"
    "\<And>u. m_ueMap ?m u = (if unat u < n then Some 0 else None)"
    "m_defaultBwpId ?m = 0"
    using Suc by simp_all
  have un: "unat (of_nat n :: 16 word) = n" using n by (simp add: unat_of_nat)
  have new: "m_ueMap ?m (of_nat n) = None" by (simp add: ih un)
  have step: "reg_run registry_one_bwp (add_ue_ops (Suc n)) = AddUe ?m (of_nat n)"
    by (simp add: add_ue_ops_Suc reg_run_append)
  show ?case
    unfolding step
    by (simp add: AddUe_def un bwpMap_upd_def bwpMap_at_def ih unat_less_Suc_16 [OF n] add.commute)
qed

theorem assignment_conservation_counterexample:
  "sum_active (reg_run registry_one_bwp (add_ue_ops 65536))
     \<noteq> num_ues (reg_run registry_one_bwp (add_ue_ops 65536))"
proof -
  have lt: "unat u < 65536" for u :: "16 word" using unsigned_less [of u] by simp
  note st = add_ue_ops_state [of 65536, simplified]
  have "dom (m_ueMap (reg_run registry_one_bwp (add_ue_ops 65536))) = UNIV"
    using st lt by (auto simp: dom_def)
  then have n: "num_ues (reg_run registry_one_bwp (add_ue_ops 65536)) = 65536"
    by (simp add: num_ues_def card_word)
  have "dom (m_bwpMap (reg_run registry_one_bwp (add_ue_ops 65536))) = {0}"
    using st by (auto simp: dom_def)
  then have s: "sum_active (reg_run registry_one_bwp (add_ue_ops 65536)) = 0"
    using st by (simp add: sum_active_def GetActiveUes_def)
  show ?thesis using n s by simp
qed

section \<open>Properties of the scheduler\<close>

subsection \<open>The search for the best sub-band\<close>

lemma lca_best_none_larger:
  "(\<forall>st \<in> set sts. lca_metric mgr st \<le> mx) \<Longrightarrow> lca_best mgr sts (b, mx) = (b, mx)"
  by (induction sts) (simp_all add: Let_def)





subsection \<open>Switching every terminal\<close>







text \<open>
  When no metric is positive the search keeps its initial choice and the terminals are
  switched to sub-band 0, whatever the statistics say.
\<close>

lemma lca_no_positive_metric:
  assumes "length (m_ueStats s) \<le> unat (m_maxScheduledUes s)"
    and "\<forall>st \<in> set (m_bwpStats s). lca_metric mgr st \<le> 0"
  shows "AssignBwpsLca s mgr = Some (switch_all (m_ueStats s) 0 mgr)"
  using assms by (simp add: AssignBwpsLca_def Let_def lca_best_none_larger)


subsection \<open>The decay of epsilon\<close>

lemma AssignBwpsRla_Some:
  "AssignBwpsRla s (Some env) u =
     Inr (s\<lparr>m_epsilon := max (m_epsilon s * m_epsilonDecay s) (m_epsilonMin s)\<rparr>,
          ExecuteAction env (if u < m_epsilon s then Sample env else GetOptimalAction env))"
  by (simp add: AssignBwpsRla_def Let_def)

lemma rla_epsilons_props:
  assumes "0 < m_epsilonDecay s" "m_epsilonDecay s \<le> 1" "m_epsilonMin s \<le> m_epsilon s"
    "0 \<le> m_epsilon s"
  shows "length (rla_epsilons s ws) = length ws \<and>
         (\<forall>x \<in> set (rla_epsilons s ws). x \<le> m_epsilon s \<and> m_epsilonMin s \<le> x) \<and>
         sorted_wrt (\<ge>) (rla_epsilons s ws)"
  using assms
proof (induction ws arbitrary: s)
  case Nil
  then show ?case by simp
next
  case (Cons w ws)
  obtain env u where w: "w = (env, u)" by (cases w)
  let ?e = "max (m_epsilon s * m_epsilonDecay s) (m_epsilonMin s)"
  let ?s = "s\<lparr>m_epsilon := ?e\<rparr>"
  have le: "m_epsilon s * m_epsilonDecay s \<le> m_epsilon s"
    using Cons.prems(2,4) by (simp add: mult_left_le)
  have e1: "?e \<le> m_epsilon s" using le Cons.prems(3) by simp
  have e2: "m_epsilonMin s \<le> ?e" by simp
  have e3: "0 \<le> ?e" using Cons.prems(1,4) by (simp add: le_max_iff_disj)
  have ih: "length (rla_epsilons ?s ws) = length ws \<and>
         (\<forall>x \<in> set (rla_epsilons ?s ws). x \<le> ?e \<and> m_epsilonMin s \<le> x) \<and>
         sorted_wrt (\<ge>) (rla_epsilons ?s ws)"
    using Cons.IH [of ?s] Cons.prems(1,2) e2 e3 by simp
  have eq: "rla_epsilons s (w # ws) = ?e # rla_epsilons ?s ws"
    by (simp add: w AssignBwpsRla_Some)
  show ?case unfolding eq using ih e1 e2 by auto
qed

text \<open>
  Claim C6, amended. With an environment attached, a window replaces \<^verbatim>\<open>m_epsilon\<close> by the
  larger of \<^verbatim>\<open>m_epsilon * m_epsilonDecay\<close> and \<^verbatim>\<open>m_epsilonMin\<close>, whatever \<open>u\<close> is, that is
  on the exploring and on the exploiting branch alike. For a decay in (0, 1] and an
  initial epsilon that is at least \<^verbatim>\<open>m_epsilonMin\<close> and not negative, every window yields
  a value, the values never increase from one window to the next, and none is below
  \<^verbatim>\<open>m_epsilonMin\<close>.
\<close>

theorem epsilon_decay:
  assumes "0 < m_epsilonDecay s" "m_epsilonDecay s \<le> 1" "m_epsilonMin s \<le> m_epsilon s"
    "0 \<le> m_epsilon s"
  shows "(\<exists>assignments. AssignBwpsRla s (Some env) u =
            Inr (s\<lparr>m_epsilon := max (m_epsilon s * m_epsilonDecay s) (m_epsilonMin s)\<rparr>,
                 assignments)) \<and>
         length (rla_epsilons s ws) = length ws \<and>
         sorted_wrt (\<ge>) (m_epsilon s # rla_epsilons s ws) \<and>
         (\<forall>x \<in> set (rla_epsilons s ws). m_epsilonMin s \<le> x)"
  using rla_epsilons_props [OF assms, of ws] by (simp add: AssignBwpsRla_Some)

text \<open>The theorem at the default attributes (1, 0.01, 0.995) and two windows.\<close>

theorem epsilon_decay_witness:
  "0 < m_epsilonDecay rla_default_sched \<and> m_epsilonDecay rla_default_sched \<le> 1 \<and>
   m_epsilonMin rla_default_sched \<le> m_epsilon rla_default_sched \<and>
   0 \<le> m_epsilon rla_default_sched \<and>
   length (rla_epsilons rla_default_sched [(rl_env_fixed, 1 / 2), (rl_env_fixed, 999 / 1000)]) = 2 \<and>
   sorted_wrt (\<ge>) (m_epsilon rla_default_sched #
      rla_epsilons rla_default_sched [(rl_env_fixed, 1 / 2), (rl_env_fixed, 999 / 1000)]) \<and>
   rla_epsilons rla_default_sched [(rl_env_fixed, 1 / 2), (rl_env_fixed, 999 / 1000)]
     = [199 / 200, 39601 / 40000]"
proof -
  have h: "0 < m_epsilonDecay rla_default_sched" "m_epsilonDecay rla_default_sched \<le> 1"
    "m_epsilonMin rla_default_sched \<le> m_epsilon rla_default_sched" "0 \<le> m_epsilon rla_default_sched"
    by (simp_all add: rla_default_sched_def)
  have e: "rla_epsilons rla_default_sched [(rl_env_fixed, 1 / 2), (rl_env_fixed, 999 / 1000)]
     = [199 / 200, 39601 / 40000]"
    by (simp add: rla_default_sched_def AssignBwpsRla_Some)
  from epsilon_decay [OF h, of rl_env_fixed 0 "[(rl_env_fixed, 1 / 2), (rl_env_fixed, 999 / 1000)]"]
  have "length (rla_epsilons rla_default_sched [(rl_env_fixed, 1 / 2), (rl_env_fixed, 999 / 1000)]) = 2"
    and "sorted_wrt (\<ge>) (m_epsilon rla_default_sched #
      rla_epsilons rla_default_sched [(rl_env_fixed, 1 / 2), (rl_env_fixed, 999 / 1000)])"
    by simp_all
  then show ?thesis using h e by blast
qed

text \<open>
  Without the sign condition the values can increase: from epsilon -1 with minimum -2
  and decay 1/2 one window leads to -1/2.
\<close>

theorem epsilon_decay_counterexample:
  "0 < m_epsilonDecay rla_negative_sched \<and> m_epsilonDecay rla_negative_sched \<le> 1 \<and>
   m_epsilonMin rla_negative_sched \<le> m_epsilon rla_negative_sched \<and>
   rla_epsilons rla_negative_sched [(rl_env_fixed, 0)] = [- 1 / 2] \<and>
   \<not> sorted_wrt (\<ge>) (m_epsilon rla_negative_sched # rla_epsilons rla_negative_sched [(rl_env_fixed, 0)])"
  by (simp add: rla_negative_sched_def AssignBwpsRla_Some)

section \<open>Properties of the reward\<close>

lemma reward_sums_eq:
  "reward_sums ues (a, t) = (a + sum_list (map holDelay ues), t + sum_list (map throughput ues))"
  by (induction ues arbitrary: a t) simp_all

text \<open>
  Claim C9. The claim is that with no terminals the averaging is skipped, so that
  nothing is divided by zero. \<^verbatim>\<open>GetReward\<close> divides by \<^verbatim>\<open>ueStats.size ()\<close> without a test:
  with no terminals the average, the reward and from then on \<^verbatim>\<open>m_totalReward\<close> are not
  finite.
\<close>

theorem GetReward_no_terminals_divides_by_zero:
  "GetReward env [] = (None, env\<lparr>m_totalReward := None\<rparr>)"
  by (simp add: GetReward_def d_div_def d_mul_def d_add_def d_neg_def split: option.splits)

text \<open>With at least one terminal the reward is the one of the claim.\<close>

lemma GetReward_nonempty:
  "ues \<noteq> [] \<Longrightarrow>
   fst (GetReward env ues) =
     Some (- (m_alpha env * (sum_list (map holDelay ues) / real (length ues)) +
              m_beta env * (m_maxThroughput env - sum_list (map throughput ues))))"
  by (simp add: GetReward_def reward_sums_eq d_div_def d_mul_def d_add_def d_neg_def Let_def)

end
